theory Spec2Isabelle
  imports Main "HOL-Library.Multiset" "HOL-Library.Sublist"
begin

section \<open>Strings of the runtime\<close>

text \<open>
  A JavaScript string is a sequence of UTF-16 code units; a code unit is written here as
  its number. All characters that the lesson's code treats specially (whitespace, ASCII
  letters, the keys of the tone table, the combining marks U+0300..U+036F) lie in the
  Basic Multilingual Plane, so one code unit is one character for them. The loop
  \<^verbatim>\<open>for (const char of syllable)\<close> joins a surrogate pair into one \<^verbatim>\<open>char\<close>,
  finds no entry for it in the tone table and appends it unchanged, which is what
  handling its two code units one after the other does.
\<close>

type_synonym jstring = "nat list"

text \<open>
  The characters matched by \<^verbatim>\<open>\s\<close> and removed by \<^verbatim>\<open>trim()\<close>: WhiteSpace and
  LineTerminator of ECMAScript.
\<close>

definition isWhiteSpace :: "nat \<Rightarrow> bool" where
  "isWhiteSpace c \<longleftrightarrow>
     c = 0x09 \<or> c = 0x0A \<or> c = 0x0B \<or> c = 0x0C \<or> c = 0x0D \<or> c = 0x20 \<or> c = 0xA0 \<or>
     c = 0x1680 \<or> (0x2000 \<le> c \<and> c \<le> 0x200A) \<or> c = 0x2028 \<or> c = 0x2029 \<or>
     c = 0x202F \<or> c = 0x205F \<or> c = 0x3000 \<or> c = 0xFEFF"

definition trim :: "jstring \<Rightarrow> jstring" where
  "trim str = rev (dropWhile isWhiteSpace (rev (dropWhile isWhiteSpace str)))"

text \<open>
  \<^verbatim>\<open>toLowerCase()\<close> and \<^verbatim>\<open>normalize("NFD")\<close> are builtins of the runtime, defined
  by the Unicode standard and not by this program: lower-casing can turn one code unit
  into two and depends on the context (the final sigma), and the canonical decomposition
  has an entry for thousands of characters. The model takes both as parameters, so
  that what is proved holds for the runtime's functions, whatever they are.
\<close>

record Runtime =
  toLowerCase :: "jstring \<Rightarrow> jstring"
  normalizeNFD :: "jstring \<Rightarrow> jstring"

text \<open>
  \<^verbatim>\<open>const normalize = (str) => str.trim().toLowerCase().replace(/\s+/g, '')\<close>
\<close>

definition normalize_str :: "Runtime \<Rightarrow> jstring \<Rightarrow> jstring" where
  "normalize_str rt str = filter (\<lambda>c. \<not> isWhiteSpace c) (toLowerCase rt (trim str))"

text \<open>
  \<^verbatim>\<open>correctPinyinWithMarks.normalize("NFD").replace(/[\u0300-\u036f]/g, "")\<close>
\<close>

definition stripToneMarks :: "Runtime \<Rightarrow> jstring \<Rightarrow> jstring" where
  "stripToneMarks rt str = filter (\<lambda>c. \<not> (0x300 \<le> c \<and> c \<le> 0x36F)) (normalizeNFD rt str)"

text \<open>Number to string conversion, as \<^verbatim>\<open>result + tone\<close> performs it.\<close>

fun numberToString :: "nat \<Rightarrow> jstring" where
  "numberToString n =
     (if n < 10 then [0x30 + n] else numberToString (n div 10) @ [0x30 + n mod 10])"

declare numberToString.simps [simp del]

section \<open>Vocabulary entries\<close>

record FlashcardData =
  word :: jstring
  pinyin :: jstring
  translation :: jstring
  hsk_level :: jstring
  example_sentence :: jstring
  notes_str :: jstring
  dateAdded :: "nat option"

section \<open>Deck shuffler\<close>

text \<open>
  \<^verbatim>\<open>Math.random()\<close> is the only source of randomness. The shuffle receives it as
  \<open>rnd\<close>: \<open>rnd n\<close> stands for the value of \<^verbatim>\<open>Math.floor(Math.random() * n)\<close> at
  the draw made while \<^verbatim>\<open>currentIndex\<close> is \<open>n\<close>. That value is below \<open>n\<close> in the
  source; the model takes \<open>rnd n mod n\<close>, so that this holds for every \<open>rnd\<close>.

  The destructuring assignment builds \<^verbatim>\<open>[array[randomIndex], array[currentIndex]]\<close>
  first and then stores its components, at \<^verbatim>\<open>currentIndex\<close> and at
  \<^verbatim>\<open>randomIndex\<close>, in this order.
\<close>

fun shuffleLoop :: "(nat \<Rightarrow> nat) \<Rightarrow> nat \<Rightarrow> 'a list \<Rightarrow> 'a list" where
  "shuffleLoop rnd 0 array = array"
| "shuffleLoop rnd (Suc k) array =
     (let randomIndex = rnd (Suc k) mod Suc k;
          currentIndex = k
      in shuffleLoop rnd currentIndex
           (array[currentIndex := array ! randomIndex, randomIndex := array ! currentIndex]))"

definition shuffleArray :: "(nat \<Rightarrow> nat) \<Rightarrow> 'a list \<Rightarrow> 'a list" where
  "shuffleArray rnd array = shuffleLoop rnd (length array) array"

section \<open>Answer validator\<close>

definition toneMap :: "nat \<Rightarrow> (nat \<times> nat) option" where
  "toneMap = map_of
     [(0x101, (0x61, 1)), (0xE1, (0x61, 2)), (0x1CE, (0x61, 3)), (0xE0, (0x61, 4)),
      (0x14D, (0x6F, 1)), (0xF3, (0x6F, 2)), (0x1D2, (0x6F, 3)), (0xF2, (0x6F, 4)),
      (0x113, (0x65, 1)), (0xE9, (0x65, 2)), (0x11B, (0x65, 3)), (0xE8, (0x65, 4)),
      (0x12B, (0x69, 1)), (0xED, (0x69, 2)), (0x1D0, (0x69, 3)), (0xEC, (0x69, 4)),
      (0x16B, (0x75, 1)), (0xFA, (0x75, 2)), (0x1D4, (0x75, 3)), (0xF9, (0x75, 4)),
      (0x1D6, (0x76, 1)), (0x1D8, (0x76, 2)), (0x1DA, (0x76, 3)), (0x1DC, (0x76, 4)),
      (0xFC, (0x76, 5))]"

definition isAsciiLetter :: "nat \<Rightarrow> bool" where
  "isAsciiLetter c \<longleftrightarrow> (0x41 \<le> c \<and> c \<le> 0x5A) \<or> (0x61 \<le> c \<and> c \<le> 0x7A)"

text \<open>
  \<^verbatim>\<open>pinyin.split(/(?<=[a-z])(?=[a-z])/i)\<close>: the pattern matches the empty string
  at every position that has an ASCII letter on its left and an ASCII letter on its
  right, and \<^verbatim>\<open>split\<close> cuts the string at each such position. The empty string
  gives one empty piece.
\<close>

fun splitSyllables :: "jstring \<Rightarrow> jstring list" where
  "splitSyllables [] = [[]]"
| "splitSyllables [c] = [[c]]"
| "splitSyllables (c # d # cs) =
     (if isAsciiLetter c \<and> isAsciiLetter d then [c] # splitSyllables (d # cs)
      else (case splitSyllables (d # cs) of
              [] \<Rightarrow> [[c]]
            | p # ps \<Rightarrow> (c # p) # ps))"

text \<open>
  The body of the \<^verbatim>\<open>for\<close> loop over the characters of one piece; the loop state is
  \<^verbatim>\<open>(result, tone, toneFound)\<close>.
\<close>

fun toneLoop :: "jstring \<Rightarrow> jstring \<times> nat \<times> bool \<Rightarrow> jstring \<times> nat \<times> bool" where
  "toneLoop [] st = st"
| "toneLoop (char # rest) (result, tone, toneFound) =
     (case toneMap char of
        Some (base, t) \<Rightarrow> toneLoop rest (result @ [base], t, True)
      | None \<Rightarrow> toneLoop rest (result @ [char], tone, toneFound))"

definition convertSyllable :: "jstring \<Rightarrow> jstring" where
  "convertSyllable syllable =
     (case toneLoop syllable ([], 5, False) of
        (result, tone, toneFound) \<Rightarrow>
          result @ (if toneFound then numberToString tone else []))"

definition pinyinToneMarksToNumbers :: "jstring \<Rightarrow> jstring" where
  "pinyinToneMarksToNumbers pinyin_str =
     concat (map convertSyllable (splitSyllables pinyin_str))"

datatype TurnMode = pinyinToHanzi | hanziToPinyin | translationToHanzi

text \<open>
  The \<^verbatim>\<open>switch\<close> of \<^verbatim>\<open>handleCheckAnswer\<close> that computes \<^verbatim>\<open>isCorrect\<close>
  from the turn's direction, the current card and the text typed.
\<close>

definition checkAnswer :: "Runtime \<Rightarrow> TurnMode \<Rightarrow> FlashcardData \<Rightarrow> jstring \<Rightarrow> bool" where
  "checkAnswer rt turnMode currentCard userInput_str =
     (case turnMode of
        hanziToPinyin \<Rightarrow>
          (let correctPinyinWithMarks = normalize_str rt (pinyin currentCard);
               correctPinyinWithNumbers = pinyinToneMarksToNumbers correctPinyinWithMarks;
               correctPinyinNoTones = stripToneMarks rt correctPinyinWithMarks;
               userInputNormalized = normalize_str rt userInput_str
           in userInputNormalized \<in>
                set [correctPinyinWithMarks, correctPinyinWithNumbers, correctPinyinNoTones])
      | pinyinToHanzi \<Rightarrow>
          normalize_str rt userInput_str = normalize_str rt (word currentCard)
      | translationToHanzi \<Rightarrow>
          normalize_str rt userInput_str = normalize_str rt (word currentCard))"

section \<open>Lesson controller\<close>

text \<open>
  The values \<^verbatim>\<open>'setup'\<close>, \<^verbatim>\<open>'active'\<close> and \<^verbatim>\<open>'summary'\<close> of
  \<^verbatim>\<open>LessonState\<close>.
\<close>

datatype LessonState = Setup | Active | Summary

text \<open>
  \<^verbatim>\<open>LessonMode\<close> is one of the three turn modes or \<^verbatim>\<open>'mixed'\<close>; the cast
  \<^verbatim>\<open>lessonMode as TurnMode\<close> of a mode that is not mixed is the argument of
  \<open>fixed\<close>.
\<close>

datatype LessonMode = fixed TurnMode | mixed

datatype Feedback = correct | incorrect | none

text \<open>
  The card index is a number of the runtime: \<^verbatim>\<open>(prev + 1) % 0\<close> is \<^verbatim>\<open>NaN\<close>, and an
  array read at \<^verbatim>\<open>NaN\<close> or beyond the last element is \<^verbatim>\<open>undefined\<close>.
\<close>

datatype JsIndex = Num nat | NaN

datatype error = TypeError

record Lesson =
  lessonState :: LessonState
  lessonMode :: LessonMode
  shuffledDeck :: "FlashcardData list"
  currentCardIndex :: JsIndex
  currentTurnMode :: TurnMode
  userInput :: jstring
  feedback :: Feedback
  score :: nat
  timeLeft :: int
  cardsAnswered :: nat
  isPaused :: bool
  incorrectAnswers :: "FlashcardData list"

definition LESSON_DURATION :: int where
  "LESSON_DURATION = 300"

text \<open>The initial values of the \<^verbatim>\<open>useState\<close> hooks.\<close>

definition initialLesson :: Lesson where
  "initialLesson =
     \<lparr>lessonState = Setup, lessonMode = fixed hanziToPinyin, shuffledDeck = [],
      currentCardIndex = Num 0, currentTurnMode = hanziToPinyin, userInput = [],
      feedback = none, score = 0, timeLeft = LESSON_DURATION, cardsAnswered = 0,
      isPaused = False, incorrectAnswers = []\<rparr>"

definition modes :: "TurnMode list" where
  "modes = [hanziToPinyin, pinyinToHanzi, translationToHanzi]"

text \<open>
  \<^verbatim>\<open>modes[Math.floor(Math.random() * modes.length)]\<close>, where \<open>r\<close> stands for the
  value of \<^verbatim>\<open>Math.floor(Math.random() * modes.length)\<close>, taken modulo the length.
\<close>

definition randomMode :: "nat \<Rightarrow> TurnMode" where
  "randomMode r = modes ! (r mod length modes)"

definition handleStartLesson ::
  "FlashcardData list \<Rightarrow> (nat \<Rightarrow> nat) \<Rightarrow> nat \<Rightarrow> Lesson \<Rightarrow> Lesson" where
  "handleStartLesson flashcards rnd r s =
     (if length flashcards = 0 then s
      else s\<lparr>score := 0,
             timeLeft := LESSON_DURATION,
             incorrectAnswers := [],
             shuffledDeck := shuffleArray rnd flashcards,
             currentCardIndex := Num 0,
             cardsAnswered := 0,
             isPaused := False,
             currentTurnMode := (case lessonMode s of mixed \<Rightarrow> randomMode r | fixed m \<Rightarrow> m),
             lessonState := Active\<rparr>)"

text \<open>\<^verbatim>\<open>shuffledDeck[currentCardIndex]\<close>; \<open>None\<close> is \<^verbatim>\<open>undefined\<close>.\<close>

definition cardAt :: "FlashcardData list \<Rightarrow> JsIndex \<Rightarrow> FlashcardData option" where
  "cardAt deck i =
     (case i of
        NaN \<Rightarrow> None
      | Num n \<Rightarrow> if n < length deck then Some (deck ! n) else None)"

text \<open>
  The handler of the answer form. Reading \<^verbatim>\<open>currentCard.pinyin\<close> or
  \<^verbatim>\<open>currentCard.word\<close> of an undefined card throws a TypeError, in each of the
  three turn modes, before any setter has been called.
\<close>

definition handleCheckAnswer :: "Runtime \<Rightarrow> Lesson \<Rightarrow> error + Lesson" where
  "handleCheckAnswer rt s =
     (if trim (userInput s) = [] \<or> feedback s \<noteq> none then Inr s
      else (case cardAt (shuffledDeck s) (currentCardIndex s) of
              None \<Rightarrow> Inl TypeError
            | Some currentCard \<Rightarrow>
                (let isCorrect = checkAnswer rt (currentTurnMode s) currentCard (userInput s);
                     s1 = s\<lparr>cardsAnswered := cardsAnswered s + 1\<rparr>
                 in if isCorrect
                    then Inr (s1\<lparr>score := score s1 + 1, feedback := correct\<rparr>)
                    else Inr (s1\<lparr>feedback := incorrect,
                                 incorrectAnswers :=
                                   (let prev = incorrectAnswers s1
                                    in if find (\<lambda>c. word c = word currentCard) prev = None
                                       then prev @ [currentCard]
                                       else prev)\<rparr>))))"

text \<open>The callback of the one-second interval.\<close>

definition tickCallback :: "Lesson \<Rightarrow> Lesson" where
  "tickCallback s = s\<lparr>timeLeft := timeLeft s - 1\<rparr>"

definition nextIndex :: "JsIndex \<Rightarrow> nat \<Rightarrow> JsIndex" where
  "nextIndex prev len =
     (case prev of
        NaN \<Rightarrow> NaN
      | Num i \<Rightarrow> if len = 0 then NaN else Num ((i + 1) mod len))"

text \<open>The callback of the 1500 ms timeout that follows an answer.\<close>

definition feedbackCallback :: "nat \<Rightarrow> Lesson \<Rightarrow> Lesson" where
  "feedbackCallback r s =
     s\<lparr>feedback := none,
       userInput := [],
       currentCardIndex := nextIndex (currentCardIndex s) (length (shuffledDeck s)),
       currentTurnMode := (if lessonMode s = mixed then randomMode r else currentTurnMode s)\<rparr>"

subsection \<open>Effects and timers\<close>

text \<open>
  The two timers of the component are kept beside its state: \<open>tickInterval\<close> says that
  the interval created by the first effect is live, \<open>feedbackTimeout\<close> that the timeout
  created by the second effect is pending. An effect runs after a render whose
  dependencies differ from those of the render before: first the cleanup of its last
  run, which clears the timer that run created, then its body.
\<close>

record Timers =
  tickInterval :: bool
  feedbackTimeout :: bool

type_synonym config = "Lesson \<times> Timers"

text \<open>The effect with dependencies \<^verbatim>\<open>[lessonState, timeLeft, isPaused]\<close>.\<close>

definition tickEffect :: "Lesson \<Rightarrow> config \<Rightarrow> config" where
  "tickEffect prev c =
     (case c of (s, tm) \<Rightarrow>
        if (lessonState prev, timeLeft prev, isPaused prev)
             = (lessonState s, timeLeft s, isPaused s)
        then (s, tm)
        else (let tm' = tm\<lparr>tickInterval := False\<rparr>
              in if lessonState s = Active \<and> \<not> isPaused s \<and> timeLeft s > 0
                 then (s, tm'\<lparr>tickInterval := True\<rparr>)
                 else if timeLeft s = 0 \<and> lessonState s = Active
                 then (s\<lparr>lessonState := Summary\<rparr>, tm')
                 else (s, tm')))"

text \<open>The effect with dependencies \<^verbatim>\<open>[feedback, shuffledDeck.length, lessonMode]\<close>.\<close>

definition feedbackEffect :: "Lesson \<Rightarrow> config \<Rightarrow> config" where
  "feedbackEffect prev c =
     (case c of (s, tm) \<Rightarrow>
        if (feedback prev, length (shuffledDeck prev), lessonMode prev)
             = (feedback s, length (shuffledDeck s), lessonMode s)
        then (s, tm)
        else (let tm' = tm\<lparr>feedbackTimeout := False\<rparr>
              in if feedback s \<noteq> none
                 then (s, tm'\<lparr>feedbackTimeout := True\<rparr>)
                 else (s, tm')))"

text \<open>
  A render commits the new state and runs the effects in the order of their
  declaration, against the state of the render before. A setter called by an effect
  (the move to the summary) causes one more render, whose effects see the state of the
  first as the previous one.
\<close>

definition render :: "Lesson \<Rightarrow> config \<Rightarrow> config" where
  "render prev c =
     (let c1 = feedbackEffect prev (tickEffect prev c)
      in if fst c1 = fst c then c1
         else feedbackEffect (fst c) (tickEffect (fst c) c1))"

subsection \<open>Events\<close>

text \<open>
  What can happen to the mounted component: a timer callback fires, or the learner uses a
  control of the view that is shown. \<open>ClickStart\<close> carries the random draws of the
  shuffle and of the mixed mode, \<open>FeedbackTimer\<close> the draw of the mixed mode.
\<close>

datatype event =
    Tick
  | FeedbackTimer nat
  | ClickPauseToggle
  | ClickResume
  | ClickExit
  | ClickStart "nat \<Rightarrow> nat" nat
  | ClickChooseAnotherMode
  | SelectMode LessonMode
  | TypeInput jstring
  | SubmitForm

text \<open>
  A timer callback fires only while its timer is live. A control is used only in the
  view that renders it, and the input and the Check button only while they are not
  disabled (\<^verbatim>\<open>disabled={feedback !== 'none' || isPaused}\<close>). The setup view shows the
  mode buttons and the start button only for a nonempty deck. A handler that throws has
  called no setter, so the state stays as it is.
\<close>

definition step :: "Runtime \<Rightarrow> FlashcardData list \<Rightarrow> event \<Rightarrow> config \<Rightarrow> config" where
  "step rt flashcards ev c =
     (case c of (s, tm) \<Rightarrow>
       (case ev of
          Tick \<Rightarrow>
            if tickInterval tm then render s (tickCallback s, tm) else c
        | FeedbackTimer r \<Rightarrow>
            if feedbackTimeout tm
            then render s (feedbackCallback r s, tm\<lparr>feedbackTimeout := False\<rparr>)
            else c
        | ClickPauseToggle \<Rightarrow>
            if lessonState s = Active
            then render s (s\<lparr>isPaused := \<not> isPaused s\<rparr>, tm) else c
        | ClickResume \<Rightarrow>
            if lessonState s = Active \<and> isPaused s
            then render s (s\<lparr>isPaused := False\<rparr>, tm) else c
        | ClickExit \<Rightarrow>
            if lessonState s = Active
            then render s (s\<lparr>lessonState := Setup\<rparr>, tm) else c
        | ClickStart rnd r \<Rightarrow>
            if (lessonState s = Setup \<and> length flashcards > 0) \<or> lessonState s = Summary
            then render s (handleStartLesson flashcards rnd r s, tm) else c
        | ClickChooseAnotherMode \<Rightarrow>
            if lessonState s = Summary
            then render s (s\<lparr>lessonState := Setup\<rparr>, tm) else c
        | SelectMode m \<Rightarrow>
            if lessonState s = Setup \<and> length flashcards > 0
            then render s (s\<lparr>lessonMode := m\<rparr>, tm) else c
        | TypeInput str \<Rightarrow>
            if lessonState s = Active \<and> \<not> (feedback s \<noteq> none \<or> isPaused s)
            then render s (s\<lparr>userInput := str\<rparr>, tm) else c
        | SubmitForm \<Rightarrow>
            if lessonState s = Active \<and> \<not> (feedback s \<noteq> none \<or> isPaused s)
            then (case handleCheckAnswer rt s of
                    Inl e \<Rightarrow> c
                  | Inr s' \<Rightarrow> render s (s', tm))
            else c))"

definition initialConfig :: config where
  "initialConfig = (initialLesson, \<lparr>tickInterval = False, feedbackTimeout = False\<rparr>)"

fun run :: "Runtime \<Rightarrow> FlashcardData list \<Rightarrow> event list \<Rightarrow> config \<Rightarrow> config" where
  "run rt flashcards [] c = c"
| "run rt flashcards (ev # evs) c = run rt flashcards evs (step rt flashcards ev c)"

section \<open>Sample data\<close>

text \<open>An ASCII literal as a string of the runtime.\<close>

definition js :: "string \<Rightarrow> jstring" where
  "js str = map of_char str"

text \<open>
  A runtime for the sample sessions. Its two functions are the builtins on the strings
  these sessions use, which are made of ASCII letters, digits and spaces, of Chinese
  characters and of the pinyin letters with a tone mark: there lower-casing maps each
  code unit on its own (a capital letter of Basic Latin, of Latin-1 or of pinyin to its
  small letter, anything else to itself), and the canonical decomposition splits a
  small letter with marks into its base letter and its combining marks. Nothing is
  claimed about it on other strings.
\<close>

definition lowerUnit :: "nat \<Rightarrow> nat" where
  "lowerUnit c =
     (if 0x41 \<le> c \<and> c \<le> 0x5A then c + 32
      else if 0xC0 \<le> c \<and> c \<le> 0xDE \<and> c \<noteq> 0xD7 then c + 32
      else if c \<in> {0x100, 0x112, 0x11A, 0x12A, 0x14C, 0x16A, 0x143, 0x147,
                    0x1CD, 0x1CF, 0x1D1, 0x1D3, 0x1D5, 0x1D7, 0x1D9, 0x1DB, 0x1F8,
                    0x1E3E} then c + 1
      else c)"

definition decompose :: "nat \<Rightarrow> jstring" where
  "decompose c =
     (case map_of
        [(0xE0, [0x61, 0x300]), (0xE1, [0x61, 0x301]), (0xE2, [0x61, 0x302]),
         (0xE3, [0x61, 0x303]), (0xE4, [0x61, 0x308]), (0xE5, [0x61, 0x30A]),
         (0xE7, [0x63, 0x327]),
         (0xE8, [0x65, 0x300]), (0xE9, [0x65, 0x301]), (0xEA, [0x65, 0x302]),
         (0xEB, [0x65, 0x308]),
         (0xEC, [0x69, 0x300]), (0xED, [0x69, 0x301]), (0xEE, [0x69, 0x302]),
         (0xEF, [0x69, 0x308]),
         (0xF1, [0x6E, 0x303]),
         (0xF2, [0x6F, 0x300]), (0xF3, [0x6F, 0x301]), (0xF4, [0x6F, 0x302]),
         (0xF5, [0x6F, 0x303]), (0xF6, [0x6F, 0x308]),
         (0xF9, [0x75, 0x300]), (0xFA, [0x75, 0x301]), (0xFB, [0x75, 0x302]),
         (0xFC, [0x75, 0x308]),
         (0xFD, [0x79, 0x301]), (0xFF, [0x79, 0x308]),
         (0x101, [0x61, 0x304]), (0x113, [0x65, 0x304]), (0x11B, [0x65, 0x30C]),
         (0x12B, [0x69, 0x304]), (0x144, [0x6E, 0x301]), (0x148, [0x6E, 0x30C]),
         (0x14D, [0x6F, 0x304]), (0x16B, [0x75, 0x304]),
         (0x1CE, [0x61, 0x30C]), (0x1D0, [0x69, 0x30C]), (0x1D2, [0x6F, 0x30C]),
         (0x1D4, [0x75, 0x30C]),
         (0x1D6, [0x75, 0x308, 0x304]), (0x1D8, [0x75, 0x308, 0x301]),
         (0x1DA, [0x75, 0x308, 0x30C]), (0x1DC, [0x75, 0x308, 0x300]),
         (0x1F9, [0x6E, 0x300]), (0x1E3F, [0x6D, 0x301])] c
      of Some d \<Rightarrow> d | None \<Rightarrow> [c])"

definition sampleRuntime :: Runtime where
  "sampleRuntime =
     \<lparr>toLowerCase = map lowerUnit, normalizeNFD = (\<lambda>str. concat (map decompose str))\<rparr>"

text \<open>
  Two entries: the word of the first is U+4F60 U+597D with the pronunciation
  \<^verbatim>\<open>n\<close> U+01D0 \<^verbatim>\<open> h\<close> U+01CE \<^verbatim>\<open>o\<close>; the second is the particle U+5417, whose
  pronunciation \<^verbatim>\<open>ma\<close> carries no tone mark.
\<close>

definition card_nihao :: FlashcardData where
  "card_nihao =
     \<lparr>word = [0x4F60, 0x597D], pinyin = [0x6E, 0x1D0, 0x20, 0x68, 0x1CE, 0x6F],
      translation = js ''hello'', hsk_level = js ''1'', example_sentence = [],
      notes_str = [], dateAdded = None\<rparr>"

definition card_ma :: FlashcardData where
  "card_ma =
     \<lparr>word = [0x5417], pinyin = js ''ma'',
      translation = js ''question particle'', hsk_level = js ''1'', example_sentence = [],
      notes_str = [], dateAdded = None\<rparr>"

text \<open>An entry whose word begins with a capital letter: \<^verbatim>\<open>T\<close> U+6064.\<close>

definition card_tshirt :: FlashcardData where
  "card_tshirt =
     \<lparr>word = [0x54, 0x6064], pinyin = [0x54, 0x20, 0x78, 0xF9],
      translation = js ''t-shirt'', hsk_level = js ''3'', example_sentence = [],
      notes_str = [], dateAdded = None\<rparr>"

definition sampleDeck :: "FlashcardData list" where
  "sampleDeck = [card_nihao, card_ma]"

text \<open>A wrong answer, and the lesson right after its start and after that answer.\<close>

definition x_input :: jstring where
  "x_input = js ''x''"

definition startedLesson :: Lesson where
  "startedLesson =
     \<lparr>lessonState = Active, lessonMode = fixed hanziToPinyin,
      shuffledDeck = [card_ma, card_nihao],
      currentCardIndex = Num 0, currentTurnMode = hanziToPinyin, userInput = [],
      feedback = none, score = 0, timeLeft = 300, cardsAnswered = 0,
      isPaused = False, incorrectAnswers = []\<rparr>"

definition answeredLesson :: "int \<Rightarrow> Lesson" where
  "answeredLesson t =
     \<lparr>lessonState = Active, lessonMode = fixed hanziToPinyin,
      shuffledDeck = [card_ma, card_nihao],
      currentCardIndex = Num 0, currentTurnMode = hanziToPinyin, userInput = x_input,
      feedback = incorrect, score = 0, timeLeft = t, cardsAnswered = 1,
      isPaused = False, incorrectAnswers = [card_ma]\<rparr>"

text \<open>
  Two sessions: in the first the learner answers and pauses while the feedback is shown;
  in the second the learner answers during the last second of the lesson.
\<close>

definition pausedTrace :: "event list" where
  "pausedTrace =
     [ClickStart (\<lambda>n. 0) 0, TypeInput x_input, SubmitForm, ClickPauseToggle]"

definition expiryTrace :: "event list" where
  "expiryTrace =
     [ClickStart (\<lambda>n. 0) 0] @ replicate 299 Tick @ [TypeInput x_input, SubmitForm]"

section \<open>Properties of the validator and the shuffle\<close>

lemma numberToString_digit: "n < 10 \<Longrightarrow> numberToString n = [0x30 + n]"
  by (simp add: numberToString.simps)

lemmas normalize_eval = normalize_str_def trim_def sampleRuntime_def lowerUnit_def isWhiteSpace_def js_def

lemmas tone_eval = pinyinToneMarksToNumbers_def convertSyllable_def toneMap_def isAsciiLetter_def numberToString_digit

lemma shuffleLoop_length: "length (shuffleLoop rnd k array) = length array"
  by (induction k arbitrary: array) (simp_all add: Let_def)

lemma shuffleLoop_mset: "k \<le> length array \<Longrightarrow> mset (shuffleLoop rnd k array) = mset array"
proof (induction k arbitrary: array)
  case 0
  then show ?case by simp
next
  case (Suc k)
  let ?r = "rnd (Suc k) mod Suc k"
  have r: "?r < length array" and k: "k < length array"
    using Suc.prems by (auto intro: less_le_trans [OF mod_less_divisor])
  have "mset (array[k := array ! ?r, ?r := array ! k]) = mset array"
    using mset_swap [OF r k] .
  then show ?case using Suc.IH [of "array[k := array ! ?r, ?r := array ! k]"] Suc.prems
    by (simp add: Let_def)
qed

lemma shuffleArray_mset: "mset (shuffleArray rnd D) = mset D"
  by (simp add: shuffleArray_def shuffleLoop_mset)

lemma shuffleArray_length: "length (shuffleArray rnd D) = length D"
  by (simp add: shuffleArray_def shuffleLoop_length)

text \<open>
  C9. For every input sequence, the empty one included, the shuffle returns a
  permutation of it: the same multiset of entries and the same length, whatever the
  random draws are.
\<close>

theorem shuffleArray_permutation:
  "mset (shuffleArray rnd D) = mset D \<and> length (shuffleArray rnd D) = length D"
  by (simp add: shuffleArray_mset shuffleArray_length)

lemma splitSyllables_nonempty: "splitSyllables p \<noteq> []"
  by (induction p rule: splitSyllables.induct) (simp_all split: list.splits)

lemma concat_splitSyllables: "concat (splitSyllables p) = p"
proof (induction p rule: splitSyllables.induct)
  case (3 c d cs)
  show ?case
  proof (cases "isAsciiLetter c \<and> isAsciiLetter d")
    case True
    then show ?thesis using 3 by simp
  next
    case False
    obtain q qs where q: "splitSyllables (d # cs) = q # qs"
      using splitSyllables_nonempty [of "d # cs"] by (cases "splitSyllables (d # cs)") auto
    with False 3 show ?thesis by auto
  qed
qed simp_all

lemma set_splitSyllables: "q \<in> set (splitSyllables p) \<Longrightarrow> set q \<subseteq> set p"
proof -
  assume "q \<in> set (splitSyllables p)"
  then have "set q \<subseteq> set (concat (splitSyllables p))" by auto
  then show ?thesis by (simp only: concat_splitSyllables)
qed

lemma toneLoop_untoned:
  "\<forall>c\<in>set q. toneMap c = None \<Longrightarrow> toneLoop q (result, tone, found) = (result @ q, tone, found)"
  by (induction q arbitrary: result) auto

lemma convertSyllable_untoned: "\<forall>c\<in>set q. toneMap c = None \<Longrightarrow> convertSyllable q = q"
  by (simp add: convertSyllable_def toneLoop_untoned)

text \<open>
  C4, as the code has it. A string none of whose characters is a key of the tone table
  is returned unchanged, both by the rewriting of one piece and by the conversion of a
  whole pronunciation: no digit is appended to it, and in particular not the digit 5.
  The digit is appended only behind a piece in which a key of the table was found
  (\<^verbatim>\<open>toneFound ? tone : ''\<close>).
\<close>

theorem untoned_unchanged:
  assumes "\<forall>c\<in>set p. toneMap c = None"
  shows "convertSyllable p = p \<and> pinyinToneMarksToNumbers p = p"
proof -
  have "map convertSyllable (splitSyllables p) = splitSyllables p"
    using assms set_splitSyllables by (intro map_idI convertSyllable_untoned) blast
  then have "pinyinToneMarksToNumbers p = p"
    by (simp add: pinyinToneMarksToNumbers_def concat_splitSyllables)
  with assms show ?thesis by (simp add: convertSyllable_untoned)
qed

theorem untoned_unchanged_witness:
  "toneMap 0x6D = None \<and> toneMap 0x61 = None \<and>
   pinyinToneMarksToNumbers (js ''ma'') = js ''ma''"
  using untoned_unchanged [of "js ''ma''"] by (simp add: js_def toneMap_def)

lemma normalize_ma: "normalize_str sampleRuntime (pinyin card_ma) = js ''ma''"
  by (simp add: card_ma_def normalize_eval)

lemma normalize_ma5: "normalize_str sampleRuntime (js ''ma5'') = js ''ma5''"
  by (simp add: normalize_eval)

lemma numbers_ma: "pinyinToneMarksToNumbers (js ''ma'') = js ''ma''"
  by (simp add: js_def tone_eval)

lemma strip_ma: "stripToneMarks sampleRuntime (js ''ma'') = js ''ma''"
  by (simp add: js_def stripToneMarks_def sampleRuntime_def decompose_def)

text \<open>
  C4, as stated, fails on the entry whose pronunciation is \<^verbatim>\<open>ma\<close>: its numeric form
  is \<^verbatim>\<open>ma\<close> again, it does not end in the digit 5, and the answer \<^verbatim>\<open>ma5\<close> is
  not accepted.
\<close>

theorem untoned_no_five_counterexample:
  "pinyinToneMarksToNumbers (normalize_str sampleRuntime (pinyin card_ma)) = js ''ma'' \<and>
   last (pinyinToneMarksToNumbers (normalize_str sampleRuntime (pinyin card_ma))) \<noteq> 0x35 \<and>
   checkAnswer sampleRuntime hanziToPinyin card_ma (js ''ma5'') = False"
  by (simp add: checkAnswer_def normalize_ma normalize_ma5 numbers_ma strip_ma) (simp add: js_def)

lemma normalize_nihao: "normalize_str sampleRuntime (pinyin card_nihao) = [0x6E, 0x1D0, 0x68, 0x1CE, 0x6F]"
  by (simp add: card_nihao_def normalize_eval)

lemma normalize_ni3hao3: "normalize_str sampleRuntime (js ''ni3hao3'') = js ''ni3hao3''"
  by (simp add: normalize_eval)

lemma numbers_nihao: "pinyinToneMarksToNumbers [0x6E, 0x1D0, 0x68, 0x1CE, 0x6F] = js ''nihao3''"
  by (simp add: js_def tone_eval)

lemma strip_nihao: "stripToneMarks sampleRuntime [0x6E, 0x1D0, 0x68, 0x1CE, 0x6F] = js ''nihao''"
  by (simp add: js_def stripToneMarks_def sampleRuntime_def decompose_def)

text \<open>
  C2. The normalised pronunciation of the first entry has no two ASCII letters next to
  each other, so it is one piece for the split; the piece gets the digit of its last
  tone mark at its end. The numeric form is \<^verbatim>\<open>nihao3\<close>, and the answer
  \<^verbatim>\<open>ni3hao3\<close> is rejected.
\<close>

theorem numeric_form_nihao:
  "pinyinToneMarksToNumbers (normalize_str sampleRuntime (pinyin card_nihao)) = js ''nihao3'' \<and>
   checkAnswer sampleRuntime hanziToPinyin card_nihao (js ''ni3hao3'') = False"
  by (simp add: checkAnswer_def normalize_nihao normalize_ni3hao3 numbers_nihao strip_nihao)
     (simp add: js_def)

lemma dropWhile_all: "list_all P a \<Longrightarrow> dropWhile P (a @ xs) = dropWhile P xs"
  by (induction a) simp_all

lemma dropWhile_none: "list_all P xs \<Longrightarrow> dropWhile P xs = []"
  by (induction xs) simp_all

lemma dropWhile_rev_all: "list_all P b \<Longrightarrow> dropWhile P (rev b @ xs) = dropWhile P xs"
  by (rule dropWhile_all) (simp add: list_all_iff)

lemma dropWhile_keep: "dropWhile P xs \<noteq> [] \<Longrightarrow> dropWhile P (xs @ ys) = dropWhile P xs @ ys"
  by (induction xs) auto

lemma trim_padding:
  assumes "list_all isWhiteSpace a" and "list_all isWhiteSpace b"
  shows "trim (a @ str @ b) = trim str"
proof (cases "dropWhile isWhiteSpace str = []")
  case True
  then have "list_all isWhiteSpace str"
    by (simp add: dropWhile_eq_Nil_conv list_all_iff)
  with assms have "list_all isWhiteSpace (a @ str @ b)" by simp
  then have e: "dropWhile isWhiteSpace (a @ str @ b) = []"
    by (rule dropWhile_none)
  show ?thesis
    by (simp only: trim_def e True)
next
  case False
  then have "dropWhile isWhiteSpace (str @ b) = dropWhile isWhiteSpace str @ b"
    by (rule dropWhile_keep)
  then have "dropWhile isWhiteSpace (a @ str @ b) = dropWhile isWhiteSpace str @ b"
    using dropWhile_all [OF assms(1), of "str @ b"] by simp
  then have e: "rev (dropWhile isWhiteSpace (a @ str @ b)) =
      rev b @ rev (dropWhile isWhiteSpace str)"
    by (simp only: rev_append)
  show ?thesis
    by (simp only: trim_def e dropWhile_rev_all [OF assms(2)])
qed

lemma normalize_str_no_whitespace:
  "list_all (\<lambda>c. \<not> isWhiteSpace c) (normalize_str rt str)"
  by (simp add: normalize_str_def list_all_iff)

lemma nihao_padded:
  "checkAnswer sampleRuntime pinyinToHanzi card_nihao [0x20, 0x4F60, 0x597D, 0x20] = True"
  by (simp add: checkAnswer_def card_nihao_def normalize_eval)

lemma nihao_half: "checkAnswer sampleRuntime pinyinToHanzi card_nihao [0x4F60] = False"
  by (simp add: checkAnswer_def card_nihao_def normalize_eval)

lemma normalize_tshirt: "normalize_str sampleRuntime (word card_tshirt) = [0x74, 0x6064]"
  by (simp add: card_tshirt_def normalize_eval)

lemma normalize_tshirt_typed:
  "normalize_str sampleRuntime [0x20, 0x74, 0x20, 0x6064, 0x20] = [0x74, 0x6064]"
  by (simp add: normalize_eval)

lemma tshirt_small:
  "checkAnswer sampleRuntime translationToHanzi card_tshirt [0x20, 0x74, 0x20, 0x6064, 0x20] = True"
  by (simp add: checkAnswer_def normalize_tshirt normalize_tshirt_typed)

text \<open>
  C7. In the directions that ask for the characters, and for every runtime, an answer is
  correct exactly when the two normal forms are equal, the normal form of a string being
  the trimmed string, lower-cased by the runtime, with its whitespace removed. So
  whitespace around the answer changes nothing, and a normal form contains no
  whitespace. In the sample runtime the word U+4F60 U+597D is accepted with spaces
  around it and its first character alone is not; the word \<^verbatim>\<open>T\<close> U+6064 is
  accepted when typed with a small letter and with spaces before, inside and after.
\<close>

theorem hanzi_exact_match:
  "checkAnswer rt pinyinToHanzi entry input =
     (filter (\<lambda>c. \<not> isWhiteSpace c) (toLowerCase rt (trim input)) =
      filter (\<lambda>c. \<not> isWhiteSpace c) (toLowerCase rt (trim (word entry)))) \<and>
   checkAnswer rt translationToHanzi entry input =
     (filter (\<lambda>c. \<not> isWhiteSpace c) (toLowerCase rt (trim input)) =
      filter (\<lambda>c. \<not> isWhiteSpace c) (toLowerCase rt (trim (word entry)))) \<and>
   (list_all isWhiteSpace a \<and> list_all isWhiteSpace b \<longrightarrow>
      trim (a @ input @ b) = trim input \<and>
      checkAnswer rt pinyinToHanzi entry (a @ input @ b) =
        checkAnswer rt pinyinToHanzi entry input \<and>
      checkAnswer rt translationToHanzi entry (a @ input @ b) =
        checkAnswer rt translationToHanzi entry input) \<and>
   list_all (\<lambda>c. \<not> isWhiteSpace c) (normalize_str rt input) \<and>
   checkAnswer sampleRuntime pinyinToHanzi card_nihao [0x20, 0x4F60, 0x597D, 0x20] = True \<and>
   checkAnswer sampleRuntime pinyinToHanzi card_nihao [0x4F60] = False \<and>
   checkAnswer sampleRuntime translationToHanzi card_tshirt
     [0x20, 0x74, 0x20, 0x6064, 0x20] = True"
proof -
  have 1: "checkAnswer rt pinyinToHanzi entry str =
     (filter (\<lambda>c. \<not> isWhiteSpace c) (toLowerCase rt (trim str)) =
      filter (\<lambda>c. \<not> isWhiteSpace c) (toLowerCase rt (trim (word entry))))" for str
    by (simp add: checkAnswer_def normalize_str_def)
  have 2: "checkAnswer rt translationToHanzi entry str =
     (filter (\<lambda>c. \<not> isWhiteSpace c) (toLowerCase rt (trim str)) =
      filter (\<lambda>c. \<not> isWhiteSpace c) (toLowerCase rt (trim (word entry))))" for str
    by (simp add: checkAnswer_def normalize_str_def)
  have 3: "list_all isWhiteSpace a \<and> list_all isWhiteSpace b \<longrightarrow>
      trim (a @ input @ b) = trim input \<and>
      checkAnswer rt pinyinToHanzi entry (a @ input @ b) =
        checkAnswer rt pinyinToHanzi entry input \<and>
      checkAnswer rt translationToHanzi entry (a @ input @ b) =
        checkAnswer rt translationToHanzi entry input"
    by (simp add: 1 2 trim_padding)
  show ?thesis
    using 1 [of input] 2 [of input] 3 normalize_str_no_whitespace [of rt input]
      nihao_padded nihao_half tshirt_small
    by blast
qed

theorem hanzi_exact_match_witness:
  "list_all isWhiteSpace [0x20] \<and>
   trim ([0x20] @ [0x54, 0x6064] @ [0x20]) = trim [0x54, 0x6064] \<and>
   checkAnswer sampleRuntime pinyinToHanzi card_tshirt ([0x20] @ [0x54, 0x6064] @ [0x20]) =
     checkAnswer sampleRuntime pinyinToHanzi card_tshirt [0x54, 0x6064]"
proof -
  have w: "list_all isWhiteSpace [0x20]" by (simp add: isWhiteSpace_def)
  with hanzi_exact_match [of sampleRuntime card_tshirt "[0x54, 0x6064]" "[0x20]" "[0x20]"]
  show ?thesis by blast
qed

section \<open>Properties of the controller\<close>

lemma shuffle_sample: "shuffleArray (\<lambda>n. 0) sampleDeck = [card_ma, card_nihao]"
  by (simp add: shuffleArray_def sampleDeck_def numeral_2_eq_2)

lemma trim_x: "trim x_input = x_input" "x_input \<noteq> []"
  by (simp_all add: x_input_def normalize_eval)

lemma normalize_x: "normalize_str sampleRuntime x_input = js ''x''"
  by (simp add: x_input_def normalize_eval)

lemma wrong_ma: "checkAnswer sampleRuntime hanziToPinyin card_ma x_input = False"
  by (simp add: checkAnswer_def normalize_ma normalize_x numbers_ma strip_ma) (simp add: js_def)

subsection \<open>What a render does\<close>

text \<open>
  A render changes the state only by the move to the summary, when the remaining time
  of an active lesson has become 0; the effects decide which timers are live.
\<close>

lemma summary_update_neq: "lessonState s = Active \<Longrightarrow> s\<lparr>lessonState := Summary\<rparr> \<noteq> s"
proof
  assume a: "lessonState s = Active" and "s\<lparr>lessonState := Summary\<rparr> = s"
  then have "lessonState (s\<lparr>lessonState := Summary\<rparr>) = lessonState s" by simp
  with a show False by simp
qed

lemma feedbackEffect_fst: "fst (feedbackEffect prev c) = fst c"
  by (cases c) (simp add: feedbackEffect_def Let_def)

lemma feedbackEffect_tickInterval:
  "tickInterval (snd (feedbackEffect prev c)) = tickInterval (snd c)"
  by (cases c) (simp add: feedbackEffect_def Let_def)

lemma feedbackEffect_feedbackTimeout:
  "feedbackTimeout (snd (feedbackEffect prev c)) =
     (if feedback prev = feedback (fst c) \<and>
         length (shuffledDeck prev) = length (shuffledDeck (fst c)) \<and>
         lessonMode prev = lessonMode (fst c)
      then feedbackTimeout (snd c) else feedback (fst c) \<noteq> none)"
  by (cases c) (simp add: feedbackEffect_def Let_def)

lemma tickEffect_feedbackTimeout:
  "feedbackTimeout (snd (tickEffect prev c)) = feedbackTimeout (snd c)"
  by (cases c) (simp add: tickEffect_def Let_def)

lemma tickEffect_fst:
  "fst (tickEffect prev c) =
     (if (lessonState prev \<noteq> lessonState (fst c) \<or> timeLeft prev \<noteq> timeLeft (fst c) \<or>
          isPaused prev \<noteq> isPaused (fst c)) \<and>
         timeLeft (fst c) = 0 \<and> lessonState (fst c) = Active
      then (fst c)\<lparr>lessonState := Summary\<rparr> else fst c)"
  by (cases c) (simp add: tickEffect_def Let_def)

lemma tickEffect_tickInterval:
  "tickInterval (snd (tickEffect prev c)) =
     (if lessonState prev = lessonState (fst c) \<and> timeLeft prev = timeLeft (fst c) \<and>
         isPaused prev = isPaused (fst c)
      then tickInterval (snd c)
      else lessonState (fst c) = Active \<and> \<not> isPaused (fst c) \<and> timeLeft (fst c) > 0)"
  by (cases c) (simp add: tickEffect_def Let_def)

lemma render_fst:
  "fst (render prev c) =
     (if (lessonState prev \<noteq> lessonState (fst c) \<or> timeLeft prev \<noteq> timeLeft (fst c) \<or>
          isPaused prev \<noteq> isPaused (fst c)) \<and>
         timeLeft (fst c) = 0 \<and> lessonState (fst c) = Active
      then (fst c)\<lparr>lessonState := Summary\<rparr> else fst c)"
proof (cases "fst (tickEffect prev c) = fst c")
  case True
  then have "render prev c = feedbackEffect prev (tickEffect prev c)"
    by (simp add: render_def Let_def feedbackEffect_fst)
  then show ?thesis by (simp only: feedbackEffect_fst tickEffect_fst)
next
  case False
  then have r: "render prev c =
      feedbackEffect (fst c) (tickEffect (fst c) (feedbackEffect prev (tickEffect prev c)))"
    by (simp add: render_def Let_def feedbackEffect_fst)
  from False have exp: "(lessonState prev \<noteq> lessonState (fst c) \<or> timeLeft prev \<noteq> timeLeft (fst c) \<or>
          isPaused prev \<noteq> isPaused (fst c)) \<and> timeLeft (fst c) = 0 \<and> lessonState (fst c) = Active"
    and t: "fst (tickEffect prev c) = (fst c)\<lparr>lessonState := Summary\<rparr>"
    unfolding tickEffect_fst by (simp_all split: if_splits)
  have "fst (render prev c) = (fst c)\<lparr>lessonState := Summary\<rparr>"
    unfolding r feedbackEffect_fst
    by (subst tickEffect_fst) (simp add: feedbackEffect_fst t)
  with exp show ?thesis by simp
qed

lemma render_tickInterval:
  "tickInterval (snd (render prev c)) =
     (if lessonState prev = lessonState (fst c) \<and> timeLeft prev = timeLeft (fst c) \<and>
         isPaused prev = isPaused (fst c)
      then tickInterval (snd c)
      else lessonState (fst c) = Active \<and> \<not> isPaused (fst c) \<and> timeLeft (fst c) > 0)"
proof (cases "fst (tickEffect prev c) = fst c")
  case True
  then have "render prev c = feedbackEffect prev (tickEffect prev c)"
    by (simp add: render_def Let_def feedbackEffect_fst)
  then show ?thesis by (simp only: feedbackEffect_tickInterval tickEffect_tickInterval)
next
  case False
  then have r: "render prev c =
      feedbackEffect (fst c) (tickEffect (fst c) (feedbackEffect prev (tickEffect prev c)))"
    by (simp add: render_def Let_def feedbackEffect_fst)
  from False have exp: "(lessonState prev \<noteq> lessonState (fst c) \<or> timeLeft prev \<noteq> timeLeft (fst c) \<or>
          isPaused prev \<noteq> isPaused (fst c)) \<and> timeLeft (fst c) = 0 \<and> lessonState (fst c) = Active"
    and t: "fst (tickEffect prev c) = (fst c)\<lparr>lessonState := Summary\<rparr>"
    unfolding tickEffect_fst by (simp_all split: if_splits)
  have "tickInterval (snd (render prev c)) = False"
    unfolding r feedbackEffect_tickInterval
    by (subst tickEffect_tickInterval) (simp add: feedbackEffect_fst t exp)
  with exp show ?thesis by auto
qed

lemma tickEffect_keeps:
  "feedback (fst (tickEffect prev c)) = feedback (fst c)"
  "shuffledDeck (fst (tickEffect prev c)) = shuffledDeck (fst c)"
  "lessonMode (fst (tickEffect prev c)) = lessonMode (fst c)"
  by (cases c; simp add: tickEffect_def Let_def)+

lemma render_feedbackTimeout:
  "feedbackTimeout (snd (render prev c)) =
     (if feedback prev = feedback (fst c) \<and>
         length (shuffledDeck prev) = length (shuffledDeck (fst c)) \<and>
         lessonMode prev = lessonMode (fst c)
      then feedbackTimeout (snd c) else feedback (fst c) \<noteq> none)"
proof (cases "fst (tickEffect prev c) = fst c")
  case True
  then have "render prev c = feedbackEffect prev (tickEffect prev c)"
    by (simp add: render_def Let_def feedbackEffect_fst)
  then show ?thesis
    by (simp only: feedbackEffect_feedbackTimeout tickEffect_feedbackTimeout tickEffect_keeps)
next
  case False
  then have r: "render prev c =
      feedbackEffect (fst c) (tickEffect (fst c) (feedbackEffect prev (tickEffect prev c)))"
    by (simp add: render_def Let_def feedbackEffect_fst)
  show ?thesis
    unfolding r
    by (simp only: feedbackEffect_feedbackTimeout tickEffect_feedbackTimeout tickEffect_keeps
        feedbackEffect_fst simp_thms if_True)
qed

lemma render_frame:
  "lessonMode (fst (render prev c)) = lessonMode (fst c)"
  "shuffledDeck (fst (render prev c)) = shuffledDeck (fst c)"
  "currentCardIndex (fst (render prev c)) = currentCardIndex (fst c)"
  "currentTurnMode (fst (render prev c)) = currentTurnMode (fst c)"
  "userInput (fst (render prev c)) = userInput (fst c)"
  "feedback (fst (render prev c)) = feedback (fst c)"
  "score (fst (render prev c)) = score (fst c)"
  "timeLeft (fst (render prev c)) = timeLeft (fst c)"
  "cardsAnswered (fst (render prev c)) = cardsAnswered (fst c)"
  "isPaused (fst (render prev c)) = isPaused (fst c)"
  "incorrectAnswers (fst (render prev c)) = incorrectAnswers (fst c)"
  by (simp_all add: render_fst)

text \<open>
  C10. In an active lesson the pause button negates the paused flag and the resume
  button clears it; score, answered cards, remaining time, card index, deck, turn mode,
  feedback, input and missed list are those of the state before.
\<close>

theorem pause_changes_only_paused:
  assumes "lessonState s = Active"
  shows "(let s' = fst (step rt D ClickPauseToggle (s, tm))
          in isPaused s' = (\<not> isPaused s) \<and> score s' = score s \<and>
             cardsAnswered s' = cardsAnswered s \<and> timeLeft s' = timeLeft s \<and>
             currentCardIndex s' = currentCardIndex s \<and> shuffledDeck s' = shuffledDeck s \<and>
             currentTurnMode s' = currentTurnMode s \<and> feedback s' = feedback s \<and>
             userInput s' = userInput s \<and> incorrectAnswers s' = incorrectAnswers s) \<and>
         (let s' = fst (step rt D ClickResume (s, tm))
          in isPaused s' = False \<and> score s' = score s \<and>
             cardsAnswered s' = cardsAnswered s \<and> timeLeft s' = timeLeft s \<and>
             currentCardIndex s' = currentCardIndex s \<and> shuffledDeck s' = shuffledDeck s \<and>
             currentTurnMode s' = currentTurnMode s \<and> feedback s' = feedback s \<and>
             userInput s' = userInput s \<and> incorrectAnswers s' = incorrectAnswers s)"
  using assms by (simp add: step_def Let_def render_frame)

lemma handleStartLesson_fields:
  assumes "D \<noteq> []"
  shows "lessonState (handleStartLesson D rnd r s) = Active"
    "score (handleStartLesson D rnd r s) = 0"
    "cardsAnswered (handleStartLesson D rnd r s) = 0"
    "incorrectAnswers (handleStartLesson D rnd r s) = []"
    "isPaused (handleStartLesson D rnd r s) = False"
    "currentCardIndex (handleStartLesson D rnd r s) = Num 0"
    "timeLeft (handleStartLesson D rnd r s) = 300"
    "lessonMode (handleStartLesson D rnd r s) = lessonMode s"
    "shuffledDeck (handleStartLesson D rnd r s) = shuffleArray rnd D"
  using assms by (simp_all add: handleStartLesson_def LESSON_DURATION_def)

text \<open>
  C8. Starting a lesson on a nonempty deck, from the setup or the summary view and in
  any mode: the state is the one \<^const>\<open>handleStartLesson\<close> builds, the lesson is
  active and not paused, score and answered cards are 0, the missed list is empty, the
  card index is 0, the remaining time is 300, and the deck is a permutation of the
  given one.
\<close>

theorem start_resets:
  assumes "D \<noteq> []" and "lessonState s = Setup \<or> lessonState s = Summary"
  shows "(let s' = fst (step rt D (ClickStart rnd r) (s, tm))
          in s' = handleStartLesson D rnd r s \<and>
             lessonState s' = Active \<and> score s' = 0 \<and> cardsAnswered s' = 0 \<and>
             incorrectAnswers s' = [] \<and> isPaused s' = False \<and>
             currentCardIndex s' = Num 0 \<and> timeLeft s' = 300 \<and>
             lessonMode s' = lessonMode s \<and> mset (shuffledDeck s') = mset D \<and>
             length (shuffledDeck s') = length D)"
proof -
  let ?s = "handleStartLesson D rnd r s"
  note fields = handleStartLesson_fields [OF assms(1), of rnd r s]
  have st: "step rt D (ClickStart rnd r) (s, tm) = render s (?s, tm)"
    using assms by (auto simp add: step_def)
  have "fst (render s (?s, tm)) = ?s"
    by (simp add: render_fst fields)
  then show ?thesis
    unfolding st Let_def using fields by (simp add: shuffleArray_mset shuffleArray_length)
qed

subsection \<open>The answer handler\<close>

lemma config_eqI:
  "fst c = s \<Longrightarrow> tickInterval (snd c) = a \<Longrightarrow> feedbackTimeout (snd c) = b \<Longrightarrow>
   c = (s, \<lparr>tickInterval = a, feedbackTimeout = b\<rparr>)"
  by (cases c) auto

lemma handleCheckAnswer_ignored:
  "trim (userInput s) = [] \<or> feedback s \<noteq> none \<Longrightarrow> handleCheckAnswer rt s = Inr s"
  by (simp add: handleCheckAnswer_def)

lemma handleCheckAnswer_undefined:
  "trim (userInput s) \<noteq> [] \<Longrightarrow> feedback s = none \<Longrightarrow>
   cardAt (shuffledDeck s) (currentCardIndex s) = None \<Longrightarrow> handleCheckAnswer rt s = Inl TypeError"
  by (simp add: handleCheckAnswer_def)

lemma handleCheckAnswer_correct:
  "trim (userInput s) \<noteq> [] \<Longrightarrow> feedback s = none \<Longrightarrow>
   cardAt (shuffledDeck s) (currentCardIndex s) = Some entry \<Longrightarrow>
   checkAnswer rt (currentTurnMode s) entry (userInput s) \<Longrightarrow>
   handleCheckAnswer rt s =
     Inr (s\<lparr>cardsAnswered := cardsAnswered s + 1, score := score s + 1, feedback := correct\<rparr>)"
  by (simp add: handleCheckAnswer_def Let_def)

lemma handleCheckAnswer_incorrect:
  "trim (userInput s) \<noteq> [] \<Longrightarrow> feedback s = none \<Longrightarrow>
   cardAt (shuffledDeck s) (currentCardIndex s) = Some entry \<Longrightarrow>
   \<not> checkAnswer rt (currentTurnMode s) entry (userInput s) \<Longrightarrow>
   handleCheckAnswer rt s =
     Inr (s\<lparr>cardsAnswered := cardsAnswered s + 1, feedback := incorrect,
            incorrectAnswers :=
              (if word entry \<in> word ` set (incorrectAnswers s) then incorrectAnswers s
               else incorrectAnswers s @ [entry])\<rparr>)"
  by (auto simp add: handleCheckAnswer_def Let_def find_None_iff image_iff)

lemma word_count_zero: "k \<notin> f ` set xs \<Longrightarrow> filter (\<lambda>c. f c = k) xs = []"
  by (induction xs) auto

lemma word_count_one:
  "distinct (map f xs) \<Longrightarrow> k \<in> f ` set xs \<Longrightarrow> length (filter (\<lambda>c. f c = k) xs) = 1"
proof (induction xs)
  case Nil
  then show ?case by simp
next
  case (Cons x xs)
  show ?case
  proof (cases "f x = k")
    case True
    with Cons.prems have "k \<notin> f ` set xs" by simp
    then have "filter (\<lambda>c. f c = k) xs = []" by (rule word_count_zero)
    with True show ?thesis by simp
  next
    case False
    with Cons show ?thesis by auto
  qed
qed

lemma handleCheckAnswer_missed_distinct:
  assumes "handleCheckAnswer rt s = Inr s'" and "distinct (map word (incorrectAnswers s))"
  shows "distinct (map word (incorrectAnswers s'))"
proof (cases "trim (userInput s) = [] \<or> feedback s \<noteq> none")
  case True
  with assms show ?thesis by (simp add: handleCheckAnswer_ignored)
next
  case False
  then have g: "trim (userInput s) \<noteq> []" "feedback s = none" by simp_all
  show ?thesis
  proof (cases "cardAt (shuffledDeck s) (currentCardIndex s)")
    case None
    with g assms show ?thesis by (simp add: handleCheckAnswer_undefined)
  next
    case (Some entry)
    show ?thesis
    proof (cases "checkAnswer rt (currentTurnMode s) entry (userInput s)")
      case True
      from assms(1) have "incorrectAnswers s' = incorrectAnswers s"
        unfolding handleCheckAnswer_correct [OF g Some True] by auto
      with assms(2) show ?thesis by simp
    next
      case False
      from assms(1) have "incorrectAnswers s' =
          (if word entry \<in> word ` set (incorrectAnswers s) then incorrectAnswers s
           else incorrectAnswers s @ [entry])"
        unfolding handleCheckAnswer_incorrect [OF g Some False] by auto
      with assms(2) show ?thesis by simp
    qed
  qed
qed

lemma handleStartLesson_missed_distinct:
  "distinct (map word (incorrectAnswers s)) \<Longrightarrow>
   distinct (map word (incorrectAnswers (handleStartLesson D rnd r s)))"
  by (simp add: handleStartLesson_def)

lemma step_missed_distinct:
  assumes "distinct (map word (incorrectAnswers (fst c)))"
  shows "distinct (map word (incorrectAnswers (fst (step rt D ev c))))"
proof (cases c)
  case (Pair s tm)
  with assms have d: "distinct (map word (incorrectAnswers s))" by simp
  show ?thesis
  proof (cases ev)
    case SubmitForm
    show ?thesis
    proof (cases "handleCheckAnswer rt s")
      case (Inl e)
      with d Pair SubmitForm show ?thesis by (simp add: step_def)
    next
      case (Inr s')
      then have "distinct (map word (incorrectAnswers s'))"
        using d by (rule handleCheckAnswer_missed_distinct)
      with d Pair SubmitForm Inr show ?thesis by (simp add: step_def render_frame)
    qed
  next
    case (ClickStart rnd r)
    with d Pair show ?thesis
      by (simp add: step_def render_frame handleStartLesson_missed_distinct)
  qed (use d Pair in \<open>simp_all add: step_def render_frame tickCallback_def feedbackCallback_def\<close>)
qed

lemma run_missed_distinct:
  "distinct (map word (incorrectAnswers (fst c))) \<Longrightarrow>
   distinct (map word (incorrectAnswers (fst (run rt D evs c))))"
  by (induction evs arbitrary: c) (simp_all add: step_missed_distinct)

lemma session_missed_distinct:
  "distinct (map word (incorrectAnswers (fst (run rt D evs initialConfig))))"
  by (rule run_missed_distinct) (simp add: initialConfig_def initialLesson_def)

text \<open>
  C5. An accepted answer (non-blank input, no feedback shown, a current card) adds 1 to
  the answered cards, adds 1 to the score exactly when it is correct, and when it is
  wrong appends the card to the missed list unless a card with the same word is there
  already. The old list is a prefix of the new one, so the order of first misses is
  kept; words stay distinct, and after a miss exactly one item has the word of the
  card. In every session from the initial state the words of the missed list are
  distinct.
\<close>

theorem recordAnswer_scoring:
  assumes "trim (userInput s) \<noteq> []" and "feedback s = none"
    and "cardAt (shuffledDeck s) (currentCardIndex s) = Some entry"
  shows "\<exists>s'. handleCheckAnswer rt s = Inr s' \<and>
           cardsAnswered s' = cardsAnswered s + 1 \<and>
           score s' = (if checkAnswer rt (currentTurnMode s) entry (userInput s)
                       then score s + 1 else score s) \<and>
           incorrectAnswers s' =
             (if checkAnswer rt (currentTurnMode s) entry (userInput s) \<or>
                 word entry \<in> word ` set (incorrectAnswers s)
              then incorrectAnswers s else incorrectAnswers s @ [entry]) \<and>
           prefix (incorrectAnswers s) (incorrectAnswers s') \<and>
           (distinct (map word (incorrectAnswers s)) \<longrightarrow>
              distinct (map word (incorrectAnswers s')) \<and>
              (\<not> checkAnswer rt (currentTurnMode s) entry (userInput s) \<longrightarrow>
                 length (filter (\<lambda>c. word c = word entry) (incorrectAnswers s')) = 1)) \<and>
           distinct (map word (incorrectAnswers (fst (run rt D evs initialConfig))))"
proof (cases "checkAnswer rt (currentTurnMode s) entry (userInput s)")
  case True
  show ?thesis
    unfolding handleCheckAnswer_correct [OF assms True]
    using True by (simp add: session_missed_distinct)
next
  case False
  show ?thesis
  proof (cases "word entry \<in> word ` set (incorrectAnswers s)")
    case True
    show ?thesis
      unfolding handleCheckAnswer_incorrect [OF assms False]
      using False True by (simp add: session_missed_distinct word_count_one)
  next
    case inew: False
    then have "filter (\<lambda>c. word c = word entry) (incorrectAnswers s) = []"
      by (rule word_count_zero)
    then show ?thesis
      unfolding handleCheckAnswer_incorrect [OF assms False]
      using False inew by (simp add: session_missed_distinct)
  qed
qed

text \<open>
  C6. After an accepted answer feedback is shown, the answered cards have grown by
  exactly 1 and the score by at most 1; a second submission - of the same text or of
  any other - returns the state unchanged.
\<close>

theorem duplicate_submission_ignored:
  assumes "trim (userInput s) \<noteq> []" and "feedback s = none"
    and "handleCheckAnswer rt s = Inr s1"
  shows "feedback s1 \<noteq> none \<and> cardsAnswered s1 = cardsAnswered s + 1 \<and>
         score s1 \<le> score s + 1 \<and>
         handleCheckAnswer rt s1 = Inr s1 \<and>
         handleCheckAnswer rt (s1\<lparr>userInput := t\<rparr>) = Inr (s1\<lparr>userInput := t\<rparr>) \<and>
         step rt D SubmitForm (s1, tm) = (s1, tm)"
proof (cases "cardAt (shuffledDeck s) (currentCardIndex s)")
  case None
  with assms show ?thesis by (simp add: handleCheckAnswer_undefined)
next
  case (Some entry)
  have fb: "feedback s1 \<noteq> none" and n: "cardsAnswered s1 = cardsAnswered s + 1"
    and sc: "score s1 \<le> score s + 1"
  proof (atomize (full), cases "checkAnswer rt (currentTurnMode s) entry (userInput s)")
    case True
    from assms(3) show "feedback s1 \<noteq> none \<and> cardsAnswered s1 = cardsAnswered s + 1 \<and> score s1 \<le> score s + 1"
      unfolding handleCheckAnswer_correct [OF assms(1,2) Some True] by auto
  next
    case False
    from assms(3) show "feedback s1 \<noteq> none \<and> cardsAnswered s1 = cardsAnswered s + 1 \<and> score s1 \<le> score s + 1"
      unfolding handleCheckAnswer_incorrect [OF assms(1,2) Some False] by auto
  qed
  from fb have "handleCheckAnswer rt s1 = Inr s1"
    and "handleCheckAnswer rt (s1\<lparr>userInput := t\<rparr>) = Inr (s1\<lparr>userInput := t\<rparr>)"
    by (simp_all add: handleCheckAnswer_ignored)
  moreover from fb have "step rt D SubmitForm (s1, tm) = (s1, tm)"
    by (simp add: step_def)
  ultimately show ?thesis using fb n sc by simp
qed

subsection \<open>Single steps\<close>

lemma step_feedback_timer:
  assumes "feedbackTimeout tm"
  shows "step rt D (FeedbackTimer r) (s, tm) =
           (feedbackCallback r s, \<lparr>tickInterval = tickInterval tm, feedbackTimeout = False\<rparr>)"
proof -
  have st: "step rt D (FeedbackTimer r) (s, tm) =
      render s (feedbackCallback r s, tm\<lparr>feedbackTimeout := False\<rparr>)"
    using assms by (simp add: step_def)
  show ?thesis
    unfolding st
    by (rule config_eqI)
       (simp_all add: render_fst render_tickInterval render_feedbackTimeout feedbackCallback_def)
qed

lemma step_tick_running:
  assumes "lessonState s = Active" "\<not> isPaused s" "tickInterval tm" "timeLeft s > 1"
  shows "step rt D Tick (s, tm) =
           (s\<lparr>timeLeft := timeLeft s - 1\<rparr>,
            \<lparr>tickInterval = True, feedbackTimeout = feedbackTimeout tm\<rparr>)"
proof -
  have st: "step rt D Tick (s, tm) = render s (s\<lparr>timeLeft := timeLeft s - 1\<rparr>, tm)"
    using assms by (simp add: step_def tickCallback_def)
  show ?thesis
    unfolding st using assms
    by (intro config_eqI)
       (simp_all add: render_fst render_tickInterval render_feedbackTimeout)
qed

lemma step_tick_expiry:
  assumes "lessonState s = Active" "\<not> isPaused s" "tickInterval tm" "timeLeft s = 1"
  shows "step rt D Tick (s, tm) =
           (s\<lparr>timeLeft := 0, lessonState := Summary\<rparr>,
            \<lparr>tickInterval = False, feedbackTimeout = feedbackTimeout tm\<rparr>)"
proof -
  have st: "step rt D Tick (s, tm) = render s (s\<lparr>timeLeft := 0\<rparr>, tm)"
    using assms by (simp add: step_def tickCallback_def)
  show ?thesis
    unfolding st using assms
    by (intro config_eqI)
       (simp_all add: render_fst render_tickInterval render_feedbackTimeout)
qed

lemma step_tick_idle: "\<not> tickInterval tm \<Longrightarrow> step rt D Tick (s, tm) = (s, tm)"
  by (simp add: step_def)

lemma step_pause_toggle:
  assumes "lessonState s = Active" "timeLeft s > 0"
  shows "step rt D ClickPauseToggle (s, tm) =
           (s\<lparr>isPaused := \<not> isPaused s\<rparr>,
            \<lparr>tickInterval = isPaused s, feedbackTimeout = feedbackTimeout tm\<rparr>)"
proof -
  have st: "step rt D ClickPauseToggle (s, tm) = render s (s\<lparr>isPaused := \<not> isPaused s\<rparr>, tm)"
    using assms by (simp add: step_def)
  show ?thesis
    unfolding st using assms
    by (intro config_eqI)
       (simp_all add: render_fst render_tickInterval render_feedbackTimeout)
qed

lemma step_type_input:
  assumes "lessonState s = Active" "feedback s = none" "\<not> isPaused s"
  shows "step rt D (TypeInput str) (s, tm) =
           (s\<lparr>userInput := str\<rparr>,
            \<lparr>tickInterval = tickInterval tm, feedbackTimeout = feedbackTimeout tm\<rparr>)"
proof -
  have st: "step rt D (TypeInput str) (s, tm) = render s (s\<lparr>userInput := str\<rparr>, tm)"
    using assms by (simp add: step_def)
  show ?thesis
    unfolding st using assms
    by (intro config_eqI)
       (simp_all add: render_fst render_tickInterval render_feedbackTimeout)
qed

lemma step_submit_incorrect:
  assumes "lessonState s = Active" "feedback s = none" "\<not> isPaused s"
    and "trim (userInput s) \<noteq> []"
    and "cardAt (shuffledDeck s) (currentCardIndex s) = Some entry"
    and "\<not> checkAnswer rt (currentTurnMode s) entry (userInput s)"
  shows "step rt D SubmitForm (s, tm) =
           (s\<lparr>cardsAnswered := cardsAnswered s + 1, feedback := incorrect,
              incorrectAnswers :=
                (if word entry \<in> word ` set (incorrectAnswers s) then incorrectAnswers s
                 else incorrectAnswers s @ [entry])\<rparr>,
            \<lparr>tickInterval = tickInterval tm, feedbackTimeout = True\<rparr>)"
proof -
  note h = handleCheckAnswer_incorrect [OF assms(4) assms(2) assms(5) assms(6)]
  have st: "step rt D SubmitForm (s, tm) =
      render s (s\<lparr>cardsAnswered := cardsAnswered s + 1, feedback := incorrect,
              incorrectAnswers :=
                (if word entry \<in> word ` set (incorrectAnswers s) then incorrectAnswers s
                 else incorrectAnswers s @ [entry])\<rparr>, tm)"
    using assms(1-3) by (simp add: step_def h)
  show ?thesis
    unfolding st using assms(1-3)
    by (intro config_eqI)
       (simp_all add: render_fst render_tickInterval render_feedbackTimeout)
qed

lemma run_append: "run rt D (xs @ ys) c = run rt D ys (run rt D xs c)"
  by (induction xs arbitrary: c) simp_all

lemma ticks_running:
  assumes "lessonState s = Active" "\<not> isPaused s" "timeLeft s = int n + k" "k \<ge> 1"
  shows "run rt D (replicate n Tick) (s, \<lparr>tickInterval = True, feedbackTimeout = b\<rparr>) =
           (s\<lparr>timeLeft := k\<rparr>, \<lparr>tickInterval = True, feedbackTimeout = b\<rparr>)"
  using assms
proof (induction n arbitrary: s)
  case 0
  then show ?case by simp
next
  case (Suc n)
  have "step rt D Tick (s, \<lparr>tickInterval = True, feedbackTimeout = b\<rparr>) =
      (s\<lparr>timeLeft := timeLeft s - 1\<rparr>, \<lparr>tickInterval = True, feedbackTimeout = b\<rparr>)"
    using Suc.prems by (simp add: step_tick_running)
  moreover have "run rt D (replicate n Tick)
      (s\<lparr>timeLeft := timeLeft s - 1\<rparr>, \<lparr>tickInterval = True, feedbackTimeout = b\<rparr>) =
      (s\<lparr>timeLeft := timeLeft s - 1, timeLeft := k\<rparr>, \<lparr>tickInterval = True, feedbackTimeout = b\<rparr>)"
    using Suc.prems by (intro Suc.IH) simp_all
  ultimately show ?case by simp
qed

subsection \<open>The sample sessions\<close>

lemma started:
  "step sampleRuntime sampleDeck (ClickStart (\<lambda>n. 0) 0) initialConfig =
     (startedLesson, \<lparr>tickInterval = True, feedbackTimeout = False\<rparr>)"
proof -
  have h: "handleStartLesson sampleDeck (\<lambda>n. 0) 0 initialLesson = startedLesson"
    by (simp add: handleStartLesson_def initialLesson_def startedLesson_def shuffle_sample
        LESSON_DURATION_def) (simp add: sampleDeck_def)
  have st: "step sampleRuntime sampleDeck (ClickStart (\<lambda>n. 0) 0) initialConfig =
      render initialLesson (startedLesson, \<lparr>tickInterval = False, feedbackTimeout = False\<rparr>)"
    unfolding initialConfig_def by (simp add: step_def h) (simp add: initialLesson_def sampleDeck_def)
  show ?thesis
    unfolding st
    by (intro config_eqI)
       (simp_all add: render_fst render_tickInterval render_feedbackTimeout
          startedLesson_def initialLesson_def)
qed

lemma answer_wrong:
  assumes "t > 0"
  shows "run sampleRuntime sampleDeck [TypeInput x_input, SubmitForm]
      (startedLesson\<lparr>timeLeft := t\<rparr>, \<lparr>tickInterval = True, feedbackTimeout = False\<rparr>) =
     (answeredLesson t, \<lparr>tickInterval = True, feedbackTimeout = True\<rparr>)"
proof -
  have 1: "step sampleRuntime sampleDeck (TypeInput x_input)
      (startedLesson\<lparr>timeLeft := t\<rparr>, \<lparr>tickInterval = True, feedbackTimeout = False\<rparr>) =
     (startedLesson\<lparr>timeLeft := t, userInput := x_input\<rparr>,
      \<lparr>tickInterval = True, feedbackTimeout = False\<rparr>)"
    by (subst step_type_input) (simp_all add: startedLesson_def)
  have 2: "step sampleRuntime sampleDeck SubmitForm
      (startedLesson\<lparr>timeLeft := t, userInput := x_input\<rparr>,
       \<lparr>tickInterval = True, feedbackTimeout = False\<rparr>) =
     (answeredLesson t, \<lparr>tickInterval = True, feedbackTimeout = True\<rparr>)"
    by (subst step_submit_incorrect [where entry = card_ma])
       (simp_all add: startedLesson_def answeredLesson_def trim_x cardAt_def wrong_ma)
  show ?thesis by (simp add: 1 2)
qed

subsection \<open>The interval is live only in an active, unpaused lesson\<close>

lemma render_tick_gated:
  assumes "tickInterval tm \<longrightarrow> lessonState prev = Active \<and> \<not> isPaused prev \<and> timeLeft prev > 0"
  shows "tickInterval (snd (render prev (s, tm))) \<longrightarrow>
           lessonState (fst (render prev (s, tm))) = Active \<and>
           \<not> isPaused (fst (render prev (s, tm))) \<and> timeLeft (fst (render prev (s, tm))) > 0"
proof (cases "lessonState prev = lessonState s \<and> timeLeft prev = timeLeft s \<and> isPaused prev = isPaused s")
  case True
  then have "fst (render prev (s, tm)) = s" "tickInterval (snd (render prev (s, tm))) = tickInterval tm"
    by (simp_all add: render_fst render_tickInterval)
  with assms True show ?thesis by simp
next
  case False
  then have t: "tickInterval (snd (render prev (s, tm))) =
      (lessonState s = Active \<and> \<not> isPaused s \<and> timeLeft s > 0)"
    unfolding render_tickInterval fst_conv snd_conv by (rule if_not_P)
  show ?thesis
  proof
    assume "tickInterval (snd (render prev (s, tm)))"
    with t have r: "lessonState s = Active" "\<not> isPaused s" "timeLeft s > 0" by simp_all
    then have "fst (render prev (s, tm)) = s" by (simp add: render_fst)
    with r show "lessonState (fst (render prev (s, tm))) = Active \<and>
           \<not> isPaused (fst (render prev (s, tm))) \<and> timeLeft (fst (render prev (s, tm))) > 0"
      by simp
  qed
qed

lemma step_tick_gated:
  assumes "tickInterval (snd c) \<longrightarrow>
      lessonState (fst c) = Active \<and> \<not> isPaused (fst c) \<and> timeLeft (fst c) > 0"
  shows "tickInterval (snd (step rt D ev c)) \<longrightarrow>
      lessonState (fst (step rt D ev c)) = Active \<and> \<not> isPaused (fst (step rt D ev c)) \<and>
      timeLeft (fst (step rt D ev c)) > 0"
proof (cases c)
  case (Pair s tm)
  with assms have inv: "tickInterval tm \<longrightarrow> lessonState s = Active \<and> \<not> isPaused s \<and> timeLeft s > 0"
    by simp
  have inv': "tickInterval (tm\<lparr>feedbackTimeout := False\<rparr>) \<longrightarrow>
      lessonState s = Active \<and> \<not> isPaused s \<and> timeLeft s > 0"
    using inv by simp
  note r = render_tick_gated [OF inv] render_tick_gated [OF inv']
  show ?thesis
  proof (cases ev)
    case SubmitForm
    then show ?thesis
      unfolding Pair using inv r by (cases "handleCheckAnswer rt s") (simp_all add: step_def)
  qed (use inv r in \<open>simp_all add: Pair step_def\<close>)
qed

lemma run_tick_gated:
  assumes "tickInterval (snd c) \<longrightarrow>
      lessonState (fst c) = Active \<and> \<not> isPaused (fst c) \<and> timeLeft (fst c) > 0"
  shows "tickInterval (snd (run rt D evs c)) \<longrightarrow>
      lessonState (fst (run rt D evs c)) = Active \<and> \<not> isPaused (fst (run rt D evs c)) \<and>
      timeLeft (fst (run rt D evs c)) > 0"
  using assms
proof (induction evs arbitrary: c)
  case Nil
  then show ?case by simp
next
  case (Cons ev evs)
  show ?case
    unfolding run.simps by (rule Cons.IH) (rule step_tick_gated [OF Cons.prems])
qed

lemma paused_tick_ignored:
  assumes "isPaused (fst (run rt D evs initialConfig))"
  shows "step rt D Tick (run rt D evs initialConfig) = run rt D evs initialConfig"
proof -
  have "tickInterval (snd (run rt D evs initialConfig)) \<longrightarrow>
      lessonState (fst (run rt D evs initialConfig)) = Active \<and>
      \<not> isPaused (fst (run rt D evs initialConfig)) \<and> timeLeft (fst (run rt D evs initialConfig)) > 0"
    by (rule run_tick_gated) (simp add: initialConfig_def)
  with assms have "\<not> tickInterval (snd (run rt D evs initialConfig))" by blast
  then show ?thesis
    by (cases "run rt D evs initialConfig") (simp add: step_def)
qed

lemma paused_run:
  "run sampleRuntime sampleDeck pausedTrace initialConfig =
     ((answeredLesson 300)\<lparr>isPaused := True\<rparr>, \<lparr>tickInterval = False, feedbackTimeout = True\<rparr>)"
proof -
  have 1: "run sampleRuntime sampleDeck [TypeInput x_input, SubmitForm]
      (startedLesson, \<lparr>tickInterval = True, feedbackTimeout = False\<rparr>) =
     (answeredLesson 300, \<lparr>tickInterval = True, feedbackTimeout = True\<rparr>)"
    using answer_wrong [of 300] by (simp add: startedLesson_def)
  have 2: "step sampleRuntime sampleDeck ClickPauseToggle
      (answeredLesson 300, \<lparr>tickInterval = True, feedbackTimeout = True\<rparr>) =
     ((answeredLesson 300)\<lparr>isPaused := True\<rparr>, \<lparr>tickInterval = False, feedbackTimeout = True\<rparr>)"
    by (subst step_pause_toggle) (simp_all add: answeredLesson_def)
  have "run sampleRuntime sampleDeck pausedTrace initialConfig =
      step sampleRuntime sampleDeck ClickPauseToggle (run sampleRuntime sampleDeck [TypeInput x_input, SubmitForm]
        (step sampleRuntime sampleDeck (ClickStart (\<lambda>n. 0) 0) initialConfig))"
    by (simp add: pausedTrace_def)
  then show ?thesis by (simp only: started 1 2)
qed

text \<open>
  C1. The learner answers and pauses while the feedback is shown. The interval is
  cleared, so a tick changes nothing; the timeout of the feedback is still pending, and
  when it fires in the paused lesson it clears the feedback and the input and moves to
  the next card.
\<close>

theorem paused_auto_advance_fires:
  "(let c = run sampleRuntime sampleDeck pausedTrace initialConfig;
        c' = step sampleRuntime sampleDeck (FeedbackTimer 0) c
    in lessonState (fst c) = Active \<and> isPaused (fst c) \<and> feedback (fst c) = incorrect \<and>
       userInput (fst c) = x_input \<and> currentCardIndex (fst c) = Num 0 \<and>
       feedbackTimeout (snd c) \<and> step sampleRuntime sampleDeck Tick c = c \<and>
       lessonState (fst c') = Active \<and> isPaused (fst c') \<and> feedback (fst c') = none \<and>
       userInput (fst c') = [] \<and> currentCardIndex (fst c') = Num 1)"
  unfolding paused_run Let_def
  by (simp add: step_feedback_timer step_tick_idle)
     (simp add: answeredLesson_def feedbackCallback_def nextIndex_def)

theorem paused_auto_advance_fires_witness:
  "isPaused (fst (run sampleRuntime sampleDeck pausedTrace initialConfig)) \<and>
   currentCardIndex (fst (run sampleRuntime sampleDeck pausedTrace initialConfig)) = Num 0 \<and>
   isPaused (fst (step sampleRuntime sampleDeck (FeedbackTimer 0)
     (run sampleRuntime sampleDeck pausedTrace initialConfig))) \<and>
   currentCardIndex (fst (step sampleRuntime sampleDeck (FeedbackTimer 0)
     (run sampleRuntime sampleDeck pausedTrace initialConfig))) = Num 1"
  using paused_auto_advance_fires by (simp add: Let_def)

lemma expiry_run:
  "run sampleRuntime sampleDeck expiryTrace initialConfig =
     (answeredLesson 1, \<lparr>tickInterval = True, feedbackTimeout = True\<rparr>)"
proof -
  have 1: "run sampleRuntime sampleDeck (replicate 299 Tick)
      (startedLesson, \<lparr>tickInterval = True, feedbackTimeout = False\<rparr>) =
     (startedLesson\<lparr>timeLeft := 1\<rparr>, \<lparr>tickInterval = True, feedbackTimeout = False\<rparr>)"
    by (rule ticks_running) (simp_all add: startedLesson_def)
  have "run sampleRuntime sampleDeck expiryTrace initialConfig =
      run sampleRuntime sampleDeck [TypeInput x_input, SubmitForm] (run sampleRuntime sampleDeck (replicate 299 Tick)
        (step sampleRuntime sampleDeck (ClickStart (\<lambda>n. 0) 0) initialConfig))"
    unfolding expiryTrace_def run_append by simp
  moreover have "run sampleRuntime sampleDeck [TypeInput x_input, SubmitForm]
      (startedLesson\<lparr>timeLeft := 1\<rparr>, \<lparr>tickInterval = True, feedbackTimeout = False\<rparr>) =
     (answeredLesson 1, \<lparr>tickInterval = True, feedbackTimeout = True\<rparr>)"
    by (rule answer_wrong) simp
  ultimately show ?thesis by (simp only: started 1)
qed

lemma expired_step:
  "step sampleRuntime sampleDeck Tick
      (answeredLesson 1, \<lparr>tickInterval = True, feedbackTimeout = True\<rparr>) =
     ((answeredLesson 1)\<lparr>timeLeft := 0, lessonState := Summary\<rparr>,
      \<lparr>tickInterval = False, feedbackTimeout = True\<rparr>)"
  by (subst step_tick_expiry) (simp_all add: answeredLesson_def)

lemma restart_step:
  "step sampleRuntime sampleDeck (ClickStart (\<lambda>n. 0) 0)
      ((answeredLesson 1)\<lparr>timeLeft := 0, lessonState := Summary\<rparr>,
       \<lparr>tickInterval = False, feedbackTimeout = True\<rparr>) =
     ((answeredLesson 300)\<lparr>cardsAnswered := 0, incorrectAnswers := []\<rparr>,
      \<lparr>tickInterval = True, feedbackTimeout = True\<rparr>)"
proof -
  have h: "handleStartLesson sampleDeck (\<lambda>n. 0) 0
      ((answeredLesson 1)\<lparr>timeLeft := 0, lessonState := Summary\<rparr>) =
      (answeredLesson 300)\<lparr>cardsAnswered := 0, incorrectAnswers := []\<rparr>"
    by (simp add: handleStartLesson_def answeredLesson_def shuffle_sample LESSON_DURATION_def)
       (simp add: sampleDeck_def)
  have st: "step sampleRuntime sampleDeck (ClickStart (\<lambda>n. 0) 0)
      ((answeredLesson 1)\<lparr>timeLeft := 0, lessonState := Summary\<rparr>,
       \<lparr>tickInterval = False, feedbackTimeout = True\<rparr>) =
      render ((answeredLesson 1)\<lparr>timeLeft := 0, lessonState := Summary\<rparr>)
        ((answeredLesson 300)\<lparr>cardsAnswered := 0, incorrectAnswers := []\<rparr>,
         \<lparr>tickInterval = False, feedbackTimeout = True\<rparr>)"
    by (simp add: step_def h)
  show ?thesis
    unfolding st
    by (intro config_eqI)
       (simp_all add: render_fst render_tickInterval render_feedbackTimeout answeredLesson_def)
qed

text \<open>
  C3. The learner answers during the last second. The tick that takes the remaining time
  to 0 moves the lesson to the summary and leaves the timeout of the feedback pending.
  When the timeout fires in the summary, it clears the feedback and the input and moves
  the card index from 0 to 1. When the learner starts the next lesson before it fires,
  it fires in that lesson: the feedback of the old answer is cleared and the card index
  moves from 0 to 1 although no card has been answered.
\<close>

theorem expiry_timeout_fires:
  "(let c = run sampleRuntime sampleDeck expiryTrace initialConfig;
        c1 = step sampleRuntime sampleDeck Tick c;
        c2 = step sampleRuntime sampleDeck (FeedbackTimer 0) c1;
        c3 = step sampleRuntime sampleDeck (ClickStart (\<lambda>n. 0) 0) c1;
        c4 = step sampleRuntime sampleDeck (FeedbackTimer 0) c3
    in lessonState (fst c) = Active \<and> timeLeft (fst c) = 1 \<and> feedbackTimeout (snd c) \<and>
       lessonState (fst c1) = Summary \<and> timeLeft (fst c1) = 0 \<and> feedbackTimeout (snd c1) \<and>
       feedback (fst c1) = incorrect \<and> userInput (fst c1) = x_input \<and>
       currentCardIndex (fst c1) = Num 0 \<and>
       c2 \<noteq> c1 \<and> feedback (fst c2) = none \<and> userInput (fst c2) = [] \<and>
       currentCardIndex (fst c2) = Num 1 \<and>
       lessonState (fst c3) = Active \<and> cardsAnswered (fst c3) = 0 \<and>
       currentCardIndex (fst c3) = Num 0 \<and> feedback (fst c3) = incorrect \<and>
       feedbackTimeout (snd c3) \<and>
       lessonState (fst c4) = Active \<and> cardsAnswered (fst c4) = 0 \<and>
       currentCardIndex (fst c4) = Num 1 \<and> feedback (fst c4) = none)"
  unfolding expiry_run Let_def expired_step restart_step
  by (simp add: step_feedback_timer)
     (simp add: answeredLesson_def feedbackCallback_def nextIndex_def)

theorem expiry_timeout_fires_witness:
  "lessonState (fst (step sampleRuntime sampleDeck Tick
     (run sampleRuntime sampleDeck expiryTrace initialConfig))) = Summary \<and>
   currentCardIndex (fst (step sampleRuntime sampleDeck Tick
     (run sampleRuntime sampleDeck expiryTrace initialConfig))) = Num 0 \<and>
   currentCardIndex (fst (step sampleRuntime sampleDeck (FeedbackTimer 0)
     (step sampleRuntime sampleDeck Tick
       (run sampleRuntime sampleDeck expiryTrace initialConfig)))) = Num 1"
  using expiry_timeout_fires by (simp add: Let_def)

lemma first_answer:
  "handleCheckAnswer sampleRuntime (startedLesson\<lparr>userInput := x_input\<rparr>) = Inr (answeredLesson 300)"
  by (subst handleCheckAnswer_incorrect [where entry = card_ma])
     (simp_all add: startedLesson_def answeredLesson_def trim_x cardAt_def wrong_ma)

theorem recordAnswer_scoring_witness:
  "trim (userInput (startedLesson\<lparr>userInput := x_input\<rparr>)) \<noteq> [] \<and>
   feedback (startedLesson\<lparr>userInput := x_input\<rparr>) = none \<and>
   cardAt (shuffledDeck (startedLesson\<lparr>userInput := x_input\<rparr>))
     (currentCardIndex (startedLesson\<lparr>userInput := x_input\<rparr>)) = Some card_ma \<and>
   (\<exists>s'. handleCheckAnswer sampleRuntime (startedLesson\<lparr>userInput := x_input\<rparr>) = Inr s' \<and>
      cardsAnswered s' = 1 \<and> score s' = 0 \<and> incorrectAnswers s' = [card_ma] \<and>
      length (filter (\<lambda>c. word c = word card_ma) (incorrectAnswers s')) = 1)"
  using recordAnswer_scoring [where s = "startedLesson\<lparr>userInput := x_input\<rparr>"
      and entry = card_ma and rt = sampleRuntime and D = sampleDeck and evs = "[]"]
  by (simp add: startedLesson_def trim_x cardAt_def wrong_ma) blast

theorem duplicate_submission_ignored_witness:
  "trim (userInput (startedLesson\<lparr>userInput := x_input\<rparr>)) \<noteq> [] \<and>
   feedback (startedLesson\<lparr>userInput := x_input\<rparr>) = none \<and>
   handleCheckAnswer sampleRuntime (startedLesson\<lparr>userInput := x_input\<rparr>) = Inr (answeredLesson 300) \<and>
   handleCheckAnswer sampleRuntime (answeredLesson 300) = Inr (answeredLesson 300) \<and>
   cardsAnswered (answeredLesson 300) = cardsAnswered (startedLesson\<lparr>userInput := x_input\<rparr>) + 1"
  using duplicate_submission_ignored [where s = "startedLesson\<lparr>userInput := x_input\<rparr>"
      and ?s1.0 = "answeredLesson 300" and rt = sampleRuntime]
  by (simp add: first_answer) (simp add: startedLesson_def trim_x)

theorem start_resets_witness:
  "sampleDeck \<noteq> [] \<and> lessonState initialLesson = Setup \<and>
   (let s' = fst (step sampleRuntime sampleDeck (ClickStart (\<lambda>n. 0) 0) initialConfig)
    in lessonState s' = Active \<and> score s' = 0 \<and> cardsAnswered s' = 0 \<and>
       incorrectAnswers s' = [] \<and> isPaused s' = False \<and> currentCardIndex s' = Num 0 \<and>
       timeLeft s' = 300 \<and> mset (shuffledDeck s') = mset sampleDeck)"
proof -
  have a: "sampleDeck \<noteq> []" by (simp add: sampleDeck_def)
  have b: "lessonState initialLesson = Setup" by (simp add: initialLesson_def)
  then have b': "lessonState initialLesson = Setup \<or> lessonState initialLesson = Summary" ..
  show ?thesis
    using a b start_resets [OF a b', where rt = sampleRuntime and rnd = "\<lambda>n. 0" and r = 0
      and tm = "\<lparr>tickInterval = False, feedbackTimeout = False\<rparr>"]
    unfolding initialConfig_def Let_def by blast
qed

theorem pause_changes_only_paused_witness:
  "lessonState startedLesson = Active \<and>
   isPaused (fst (step sampleRuntime sampleDeck ClickPauseToggle
      (startedLesson, \<lparr>tickInterval = True, feedbackTimeout = False\<rparr>))) = True \<and>
   timeLeft (fst (step sampleRuntime sampleDeck ClickPauseToggle
      (startedLesson, \<lparr>tickInterval = True, feedbackTimeout = False\<rparr>))) = 300 \<and>
   isPaused (fst (step sampleRuntime sampleDeck ClickResume
      (startedLesson, \<lparr>tickInterval = True, feedbackTimeout = False\<rparr>))) = False"
  using pause_changes_only_paused [where s = startedLesson and rt = sampleRuntime
      and D = sampleDeck and tm = "\<lparr>tickInterval = True, feedbackTimeout = False\<rparr>"]
  by (simp add: Let_def startedLesson_def)

end
